theory Spec2Isabelle
  imports Complex_Main "HOL-Library.Multiset"
begin

section \<open>Python values used by the font conversion tool\<close>

text \<open>
  A Python \<^verbatim>\<open>str\<close> is a sequence of Unicode code points, so it is modelled as a list
  of natural numbers. The literals of the source are written out as their code points.
  Wall-clock readings (\<^verbatim>\<open>time.time()\<close>) and the quantities derived from them are
  rationals: the rounding of floating point arithmetic is not modelled.
\<close>

type_synonym ustr = "nat list"

text \<open>Exceptions are instances of \<^verbatim>\<open>Exception\<close>; each carries its message, the text
  of \<^verbatim>\<open>str(e)\<close>.\<close>

datatype py_exc =
    FileNotFoundError ustr
  | NotADirectoryError ustr
  | ZeroDivisionError ustr
  | ValueError ustr
  | OtherException ustr

fun exc_str :: "py_exc \<Rightarrow> ustr" where
  "exc_str (FileNotFoundError m) = m"
| "exc_str (NotADirectoryError m) = m"
| "exc_str (ZeroDivisionError m) = m"
| "exc_str (ValueError m) = m"
| "exc_str (OtherException m) = m"

subsection \<open>String operations\<close>

text \<open>
  \<^verbatim>\<open>str.strip()\<close> removes leading and trailing white space; the code points below are
  exactly those for which \<^verbatim>\<open>str.isspace\<close> holds.
\<close>

definition is_space :: "nat \<Rightarrow> bool" where
  "is_space c =
     ((9 \<le> c \<and> c \<le> 13) \<or> (28 \<le> c \<and> c \<le> 32) \<or> c = 133 \<or> c = 160 \<or> c = 5760
      \<or> (8192 \<le> c \<and> c \<le> 8202) \<or> c = 8232 \<or> c = 8233 \<or> c = 8239 \<or> c = 8287
      \<or> c = 12288)"

definition strip :: "ustr \<Rightarrow> ustr" where
  "strip s = rev (dropWhile is_space (rev (dropWhile is_space s)))"

text \<open>
  \<^verbatim>\<open>s.split(d)\<close> for a one-character separator: the pieces between the separators.
  The result is never the empty list: \<^verbatim>\<open>''.split('\n') == ['']\<close>.
\<close>

fun split :: "nat \<Rightarrow> ustr \<Rightarrow> ustr list" where
  "split d [] = [[]]"
| "split d (c # cs) =
     (if c = d then [] # split d cs
      else (case split d cs of [] \<Rightarrow> [[c]] | l # ls \<Rightarrow> (c # l) # ls))"

text \<open>\<^verbatim>\<open>str.lower()\<close>, on the code points that matter for the suffix test: only the
  ASCII capitals have a lower case among the code points of \<^verbatim>\<open>'.otf'\<close>.\<close>

definition lower_cp :: "nat \<Rightarrow> nat" where
  "lower_cp c = (if 65 \<le> c \<and> c \<le> 90 then c + 32 else c)"

definition lower :: "ustr \<Rightarrow> ustr" where
  "lower s = map lower_cp s"

definition endswith :: "ustr \<Rightarrow> ustr \<Rightarrow> bool" where
  "endswith s suffix = (length suffix \<le> length s \<and> drop (length s - length suffix) s = suffix)"

subsection \<open>Literals of the source\<close>

definition newline :: nat where
  "newline = 10"

definition dot_otf :: ustr where
  "dot_otf = [46, 111, 116, 102]"

definition file_missing_msg :: ustr where
  \<comment> \<open>line 68, "file does not exist"\<close>
  "file_missing_msg = [25991, 20214, 19981, 23384, 22312]"

definition unknown_error_msg :: ustr where
  \<comment> \<open>line 86, "unknown error"\<close>
  "unknown_error_msg = [26410, 30693, 38169, 35823]"

definition system_error_prefix :: ustr where
  \<comment> \<open>line 88, "system error: "\<close>
  "system_error_prefix = [31995, 32479, 38169, 35823, 58, 32]"

definition task_error_prefix :: ustr where
  \<comment> \<open>line 145, "task exception: "\<close>
  "task_error_prefix = [20219, 21153, 24322, 24120, 58, 32]"

definition font_dir :: ustr where
  \<comment> \<open>line 99, \<^verbatim>\<open>D:\Software\PotPlayer\otf\<close>\<close>
  "font_dir = [68, 58, 92, 83, 111, 102, 116, 119, 97, 114, 101, 92, 80, 111, 116, 80, 108,
     97, 121, 101, 114, 92, 111, 116, 102]"

section \<open>The file system and the external converter\<close>

datatype node = RegularFile | Directory "ustr list"

datatype completed_process = CompletedProcess (returncode: int) (stderr: ustr)

text \<open>
  The world a run sees: what each path names, the platform (it decides the path
  separator), what \<^verbatim>\<open>subprocess.run(["otf2ttf", path], ...)\<close> does (it returns a
  completed process or raises), and the value of \<^verbatim>\<open>os.cpu_count()\<close> (\<open>None\<close> or
  a count).
\<close>

record world =
  fs :: "ustr \<Rightarrow> node option"
  IS_WINDOWS :: bool
  otf2ttf :: "ustr \<Rightarrow> py_exc + completed_process"
  cpu_count :: "nat option"

definition is_sep :: "world \<Rightarrow> nat \<Rightarrow> bool" where
  "is_sep w c = (c = 47 \<or> (IS_WINDOWS w \<and> c = 92))"

definition sep :: "world \<Rightarrow> nat" where
  "sep w = (if IS_WINDOWS w then 92 else 47)"

definition path_exists :: "world \<Rightarrow> ustr \<Rightarrow> bool" where
  "path_exists w p = (fs w p \<noteq> None)"

definition isfile :: "world \<Rightarrow> ustr \<Rightarrow> bool" where
  "isfile w p = (fs w p = Some RegularFile)"

text \<open>\<^verbatim>\<open>os.listdir\<close> raises for a path that names nothing or names a file; the message
  is shortened to the path.\<close>

definition listdir :: "world \<Rightarrow> ustr \<Rightarrow> py_exc + ustr list" where
  "listdir w p =
     (case fs w p of
        None \<Rightarrow> Inl (FileNotFoundError p)
      | Some RegularFile \<Rightarrow> Inl (NotADirectoryError p)
      | Some (Directory names) \<Rightarrow> Inr names)"

text \<open>
  The part of a path after its drive: on Windows a colon in second place ends the drive
  (network shares are not modelled); elsewhere there is none.
\<close>

definition after_drive :: "world \<Rightarrow> ustr \<Rightarrow> ustr" where
  "after_drive w p = (if IS_WINDOWS w \<and> 2 \<le> length p \<and> p ! 1 = 58 then drop 2 p else p)"

text \<open>
  \<^verbatim>\<open>os.path.join(directory, f)\<close> for a name \<open>f\<close> of a directory listing (relative, one
  component, no drive): a separator is put between the two unless the directory, after
  its drive, is empty or ends with one. \<^verbatim>\<open>os.path.basename\<close> is the part after the
  last separator of the path after its drive.
\<close>

definition path_join :: "world \<Rightarrow> ustr \<Rightarrow> ustr \<Rightarrow> ustr" where
  "path_join w directory f =
     (if after_drive w directory = [] \<or> is_sep w (last (after_drive w directory))
      then directory @ f
      else directory @ sep w # f)"

definition basename :: "world \<Rightarrow> ustr \<Rightarrow> ustr" where
  "basename w p = rev (takeWhile (\<lambda>c. \<not> is_sep w c) (rev (after_drive w p)))"

section \<open>convert_otf_to_ttf\<close>

record result =
  filename :: ustr
  success :: bool
  error :: ustr
  time :: rat

text \<open>
  How control leaves a block of statements, with the result dictionary as it is at that
  moment: the block ran to its end, executed \<^verbatim>\<open>return result\<close>, or raised.
\<close>

datatype flow = Fallthrough result | Return result | Raise py_exc result

fun flow_result :: "flow \<Rightarrow> result" where
  "flow_result (Fallthrough r) = r"
| "flow_result (Return r) = r"
| "flow_result (Raise e r) = r"

text \<open>Lines 66-86, the body of the \<^verbatim>\<open>try\<close>.\<close>

definition try_body :: "world \<Rightarrow> ustr \<Rightarrow> result \<Rightarrow> flow" where
  "try_body w file_path result =
     (if \<not> path_exists w file_path then Return (result\<lparr>error := file_missing_msg\<rparr>)
      else
        (case otf2ttf w file_path of
           Inl e \<Rightarrow> Raise e result
         | Inr process \<Rightarrow>
             if returncode process = 0 then Fallthrough (result\<lparr>success := True\<rparr>)
             else
               (let error_lines = split newline (strip (stderr process))
                in Fallthrough
                     (result\<lparr>error :=
                        (if error_lines \<noteq> [] then last error_lines else unknown_error_msg)\<rparr>))))"

text \<open>Lines 87-88, \<^verbatim>\<open>except Exception as e\<close>.\<close>

definition except_Exception :: "flow \<Rightarrow> flow" where
  "except_Exception f =
     (case f of
        Raise e result \<Rightarrow> Fallthrough (result\<lparr>error := system_error_prefix @ exc_str e\<rparr>)
      | _ \<Rightarrow> f)"

text \<open>
  Lines 89-91, the \<^verbatim>\<open>finally\<close> block. It runs however the \<^verbatim>\<open>try\<close> statement was
  left, and its own \<^verbatim>\<open>return result\<close> ends the call: a pending return value or
  exception is discarded. \<open>now\<close> is the reading of the clock at line 90.
\<close>

definition finally_block :: "rat \<Rightarrow> rat \<Rightarrow> flow \<Rightarrow> py_exc + result" where
  "finally_block now start_time f = Inr ((flow_result f)\<lparr>time := now - start_time\<rparr>)"

text \<open>
  Lines 59-91. \<open>start_time\<close> and \<open>end_time\<close> are the two readings of the clock, at
  line 61 and at line 90. The value is what the caller gets: an exception or the
  returned dictionary.
\<close>

definition convert_otf_to_ttf :: "world \<Rightarrow> rat \<Rightarrow> rat \<Rightarrow> ustr \<Rightarrow> py_exc + result" where
  "convert_otf_to_ttf w start_time end_time file_path =
     (let filename = basename w file_path;
          result = \<lparr>filename = filename, success = False, error = [], time = 0\<rparr>
      in finally_block end_time start_time (except_Exception (try_body w file_path result)))"

section \<open>print_progress_bar\<close>

definition bar_length :: int where
  "bar_length = 50"

definition bar_fill :: nat where
  "bar_fill = 9608"

definition dash :: nat where
  "dash = 45"

record progress =
  percent :: rat
  filled_length :: int
  bar :: ustr
  line_ended :: bool

text \<open>
  Lines 44-52, with the default \<^verbatim>\<open>length\<close> and \<^verbatim>\<open>fill\<close>. The first statement
  divides by \<^verbatim>\<open>float(total)\<close>, which raises for \<^verbatim>\<open>total == 0\<close>. The value is what
  the call writes: the percentage (before it is formatted to one decimal), the bar, and
  whether the closing \<^verbatim>\<open>print()\<close> ran.
\<close>

definition print_progress_bar :: "int \<Rightarrow> int \<Rightarrow> py_exc + progress" where
  "print_progress_bar iteration total' =
     (if total' = 0 then Inl (ZeroDivisionError (map of_char ''float division by zero''))
      else
        (let percent = 100 * (of_int iteration / of_int total');
             filled_length = (bar_length * iteration) div total';
             bar = replicate (nat filled_length) bar_fill
                   @ replicate (nat (bar_length - filled_length)) dash
         in Inr \<lparr>percent = percent, filled_length = filled_length, bar = bar,
                 line_ended = (iteration = total')\<rparr>))"

section \<open>get_otf_files\<close>

text \<open>Lines 54-57. An exception of \<^verbatim>\<open>os.listdir\<close> is not caught.\<close>

definition get_otf_files :: "world \<Rightarrow> ustr \<Rightarrow> py_exc + ustr list" where
  "get_otf_files w directory =
     (case listdir w directory of
        Inl e \<Rightarrow> Inl e
      | Inr names \<Rightarrow>
          Inr [path_join w directory f. f \<leftarrow> names,
                 endswith (lower f) dot_otf \<and> isfile w (path_join w directory f)])"

section \<open>The worker pool\<close>

text \<open>
  A future, as the main thread sees it: the file it was submitted for and what
  \<^verbatim>\<open>future.result()\<close> gives, the value the call returned or the exception it raised.
\<close>

type_synonym future = "ustr \<times> (py_exc + result)"

text \<open>
  What is not decided by the program: the two clock readings of each call, an exception
  raised in the worker outside the call's own handling (none for a call that runs
  normally), and the order in which the futures complete.
\<close>

record pool =
  task_clock :: "ustr \<Rightarrow> rat \<times> rat"
  task_fault :: "ustr \<Rightarrow> py_exc option"
  completion :: "nat list"

text \<open>Line 130, \<^verbatim>\<open>executor.submit(convert_otf_to_ttf, file)\<close>.\<close>

definition submit :: "world \<Rightarrow> pool \<Rightarrow> ustr \<Rightarrow> future" where
  "submit w p file =
     (file,
      case task_fault p file of
        Some e \<Rightarrow> Inl e
      | None \<Rightarrow> convert_otf_to_ttf w (fst (task_clock p file)) (snd (task_clock p file)) file)"

text \<open>
  \<^verbatim>\<open>as_completed\<close> yields every future once, in the order of completion. The order
  is given by a list of choices: each picks one of the futures not yet yielded.
\<close>

function as_completed :: "nat list \<Rightarrow> 'a list \<Rightarrow> 'a list" where
  "as_completed ks [] = []"
| "as_completed [] (x # xs) = x # xs"
| "as_completed (k # ks) (x # xs) =
     (let i = k mod length (x # xs)
      in (x # xs) ! i # as_completed ks (take i (x # xs) @ drop (Suc i) (x # xs)))"
  by pat_completeness auto
termination
  by (relation "measure (\<lambda>(ks, xs). length xs)") auto

section \<open>main\<close>

text \<open>What a run does that can be observed: its output and its use of the pool.\<close>

datatype event =
    SetCodePage
  | PrintNoFiles
  | PrintBanner ustr int int int
  | PoolStart int
  | Submit ustr
  | ProgressBar int int
  | ResultLine int int ustr bool rat "ustr option"
  | PoolShutdown
  | PrintReport int int rat rat rat
  | PrintFailedHeader
  | PrintFailedEntry ustr ustr
  | PrintFooter

record counters =
  success_count :: int
  failed_count :: int
  processed_count :: int
  total_processing_time :: rat

text \<open>Lines 110-111.\<close>

definition cpu_cores :: "world \<Rightarrow> int" where
  "cpu_cores w = (case cpu_count w of None \<Rightarrow> 1 | Some n \<Rightarrow> if n = 0 then 1 else int n)"

definition max_threads :: "world \<Rightarrow> int" where
  "max_threads w = min (cpu_cores w * 2) 32"

text \<open>Lines 139-147: the result of a future, or the failed result that stands for its
  exception.\<close>

definition future_result :: "world \<Rightarrow> future \<Rightarrow> result" where
  "future_result w fut =
     (case snd fut of
        Inr result \<Rightarrow> result
      | Inl e \<Rightarrow>
          \<lparr>filename = basename w (fst fut), success = False,
           error = task_error_prefix @ exc_str e, time = 0\<rparr>)"

text \<open>Lines 136-173, one round of the loop. The state is the output so far and the
  counters.\<close>

definition loop_body ::
  "world \<Rightarrow> int \<Rightarrow> future \<Rightarrow> event list \<times> counters \<Rightarrow> event list \<times> (py_exc + counters)" where
  "loop_body w total_files fut st =
     (let (tr, c) = st;
          c1 = c\<lparr>processed_count := processed_count c + 1\<rparr>;
          result = future_result w fut;
          c2 = (if success result then c1\<lparr>success_count := success_count c1 + 1\<rparr>
                else c1\<lparr>failed_count := failed_count c1 + 1\<rparr>);
          c3 = c2\<lparr>total_processing_time := total_processing_time c2 + time result\<rparr>;
          filename_display =
            take 40 (filename result) @ (if drop 40 (filename result) \<noteq> [] then [46, 46] else []);
          tr1 = tr @ [ProgressBar (processed_count c3) total_files]
      in case print_progress_bar (processed_count c3) total_files of
           Inl e \<Rightarrow> (tr1, Inl e)
         | Inr written \<Rightarrow>
             (tr1 @ [ResultLine (processed_count c3) total_files filename_display
                       (success result) (time result)
                       (if \<not> success result then Some (take 50 (error result)) else None)],
              Inr c3))"

text \<open>Lines 135-173, the loop over the futures in the order of completion.\<close>

fun collect_loop ::
  "world \<Rightarrow> int \<Rightarrow> future list \<Rightarrow> event list \<times> counters \<Rightarrow> event list \<times> (py_exc + counters)" where
  "collect_loop w total_files [] st = (fst st, Inr (snd st))"
| "collect_loop w total_files (fut # futs) st =
     (case loop_body w total_files fut st of
        (tr, Inl e) \<Rightarrow> (tr, Inl e)
      | (tr, Inr c) \<Rightarrow> collect_loop w total_files futs (tr, c))"

text \<open>Python's division \<^verbatim>\<open>a / b\<close> on numbers: it raises when the divisor is zero.\<close>

definition true_div :: "rat \<Rightarrow> rat \<Rightarrow> py_exc + rat" where
  "true_div a b =
     (if b = 0 then Inl (ZeroDivisionError (map of_char ''division by zero'')) else Inr (a / b))"

text \<open>Lines 176-179: the counters when the loop has ended, and the figures computed from
  them. Each division is behind its guard.\<close>

record report =
  final :: counters
  total_duration :: rat
  avg_time_per_file :: rat
  files_per_second :: rat

definition finalize :: "counters \<Rightarrow> int \<Rightarrow> rat \<Rightarrow> rat \<Rightarrow> py_exc + report" where
  "finalize c total_files start_total_time end_total_time =
     (let total_duration = end_total_time - start_total_time
      in case (if total_files > 0 then true_div (total_processing_time c) (of_int total_files)
               else Inr 0) of
           Inl e \<Rightarrow> Inl e
         | Inr average \<Rightarrow>
             (case (if total_duration > 0 then true_div (of_int (success_count c)) total_duration
                    else Inr 0) of
                Inl e \<Rightarrow> Inl e
              | Inr throughput \<Rightarrow>
                  Inr \<lparr>final = c, total_duration = total_duration,
                       avg_time_per_file = average, files_per_second = throughput\<rparr>))"

text \<open>Lines 190-198. An exception of \<^verbatim>\<open>future.result()\<close> is swallowed.\<close>

definition failure_entry :: "future \<Rightarrow> event list" where
  "failure_entry fut =
     (case snd fut of
        Inr result \<Rightarrow>
          if \<not> success result then [PrintFailedEntry (filename result) (error result)] else []
      | Inl e \<Rightarrow> [])"

definition failure_listing :: "int \<Rightarrow> future list \<Rightarrow> event list" where
  "failure_listing failed future_to_file =
     (if failed > 0 then PrintFailedHeader # concat (map failure_entry future_to_file) else [])"

text \<open>
  Lines 93-200. The value is the output of the run with how it ended: an exception that
  left \<^verbatim>\<open>main\<close>, the early return (\<open>None\<close>), or the final report.
  \<open>start_total_time\<close> and \<open>end_total_time\<close> are the clock readings of lines 120 and 176.
\<close>

definition main :: "world \<Rightarrow> pool \<Rightarrow> rat \<Rightarrow> rat \<Rightarrow> event list \<times> (py_exc + report option)" where
  "main w p start_total_time end_total_time =
     (let tr0 = (if IS_WINDOWS w then [SetCodePage] else [])
      in case get_otf_files w font_dir of
           Inl e \<Rightarrow> (tr0, Inl e)
         | Inr otf_files \<Rightarrow>
             (let total_files = int (length otf_files)
              in if total_files = 0 then (tr0 @ [PrintNoFiles], Inr None)
                 else
                   (let tr1 = tr0 @ [PrintBanner font_dir total_files (max_threads w) (cpu_cores w)]
                    in if max_threads w \<le> 0
                       then (tr1, Inl (ValueError (map of_char ''max_workers must be greater than 0'')))
                       else
                         (let future_to_file = map (submit w p) otf_files;
                              tr2 = tr1 @ PoolStart (max_threads w) # map Submit otf_files;
                              c0 = \<lparr>success_count = 0, failed_count = 0, processed_count = 0,
                                    total_processing_time = 0\<rparr>
                          in case collect_loop w total_files
                                    (as_completed (completion p) future_to_file) (tr2, c0) of
                               (tr3, Inl e) \<Rightarrow> (tr3 @ [PoolShutdown], Inl e)
                             | (tr3, Inr c) \<Rightarrow>
                                 (case finalize c total_files start_total_time end_total_time of
                                    Inl e \<Rightarrow> (tr3 @ [PoolShutdown], Inl e)
                                  | Inr r \<Rightarrow>
                                      (tr3 @ [PoolShutdown,
                                              PrintReport (success_count c) (failed_count c)
                                                (total_duration r) (avg_time_per_file r)
                                                (files_per_second r)]
                                           @ failure_listing (failed_count c) future_to_file
                                           @ [PrintFooter],
                                       Inr (Some r)))))))"

section \<open>Sample runs\<close>

text \<open>
  A font directory with \<^verbatim>\<open>a.otf\<close>, \<^verbatim>\<open>b.OTF\<close>, \<^verbatim>\<open>c.otf\<close> and \<^verbatim>\<open>notes.txt\<close> on
  Windows with four logical CPUs; the converter fails on \<^verbatim>\<open>c.otf\<close> with exit status 1
  and the diagnostic \<^verbatim>\<open>bad glyph table\<close>.
\<close>

definition name_a :: ustr where
  "name_a = [97, 46, 111, 116, 102]"

definition name_b :: ustr where
  "name_b = [98, 46, 79, 84, 70]"

definition name_c :: ustr where
  "name_c = [99, 46, 111, 116, 102]"

definition name_txt :: ustr where
  "name_txt = [110, 111, 116, 101, 115, 46, 116, 120, 116]"

definition in_font_dir :: "ustr \<Rightarrow> ustr" where
  "in_font_dir f = font_dir @ 92 # f"

definition bad_glyph_table :: ustr where
  "bad_glyph_table = map of_char ''bad glyph table''"

definition sample_world :: world where
  "sample_world =
     \<lparr>fs = (\<lambda>p. if p = font_dir then Some (Directory [name_a, name_b, name_c, name_txt])
                else if p = in_font_dir name_a \<or> p = in_font_dir name_b
                        \<or> p = in_font_dir name_c \<or> p = in_font_dir name_txt
                then Some RegularFile
                else None),
      IS_WINDOWS = True,
      otf2ttf = (\<lambda>p. if p = in_font_dir name_c
                     then Inr (CompletedProcess 1 (bad_glyph_table @ [10]))
                     else Inr (CompletedProcess 0 [])),
      cpu_count = Some 4\<rparr>"

definition sample_pool :: pool where
  "sample_pool = \<lparr>task_clock = (\<lambda>p. (1, 3)), task_fault = (\<lambda>p. None), completion = [2, 0, 0]\<rparr>"

text \<open>The same directory when the converter is not installed: every launch raises.\<close>

definition no_converter_world :: world where
  "no_converter_world =
     sample_world\<lparr>otf2ttf := (\<lambda>p. Inl (FileNotFoundError (map of_char ''otf2ttf'')))\<rparr>"

text \<open>A converter that exits with status 1 and writes nothing to its error stream.\<close>

definition silent_failure_world :: world where
  "silent_failure_world = sample_world\<lparr>otf2ttf := (\<lambda>p. Inr (CompletedProcess 1 []))\<rparr>"

text \<open>A directory with only \<^verbatim>\<open>notes.txt\<close>, no directory at all, and a file in its place.\<close>

definition no_fonts_world :: world where
  "no_fonts_world =
     sample_world\<lparr>fs := (\<lambda>p. if p = font_dir then Some (Directory [name_txt])
                             else if p = in_font_dir name_txt then Some RegularFile else None)\<rparr>"

definition no_directory_world :: world where
  "no_directory_world = sample_world\<lparr>fs := (\<lambda>p. None)\<rparr>"

definition file_as_directory_world :: world where
  "file_as_directory_world =
     sample_world\<lparr>fs := (\<lambda>p. if p = font_dir then Some RegularFile else None)\<rparr>"

text \<open>A run in which the worker of \<^verbatim>\<open>a.otf\<close> raises outside the call's own handling.\<close>

definition faulty_pool :: pool where
  "faulty_pool =
     sample_pool\<lparr>task_fault := (\<lambda>p. if p = in_font_dir name_a
                                    then Some (OtherException (map of_char ''boom''))
                                    else None)\<rparr>"

text \<open>The counters after a run with two successes and one failure, two seconds each.\<close>

definition sample_counters :: counters where
  "sample_counters =
     \<lparr>success_count = 2, failed_count = 1, processed_count = 3, total_processing_time = 6\<rparr>"

section \<open>Properties of convert_otf_to_ttf\<close>

lemmas sample_defs = sample_world_def in_font_dir_def font_dir_def name_a_def name_b_def
  name_c_def name_txt_def bad_glyph_table_def

lemma split_not_Nil: "split d s \<noteq> []"
  by (induction s) (auto split: list.splits)

text \<open>The four ways through the function: the missing file, the launch that raises, exit
  status zero and a non-zero exit status.\<close>

lemma convert_missing:
  "\<not> path_exists w p \<Longrightarrow>
   convert_otf_to_ttf w t0 t1 p =
     Inr \<lparr>filename = basename w p, success = False, error = file_missing_msg, time = t1 - t0\<rparr>"
  by (simp add: convert_otf_to_ttf_def try_body_def except_Exception_def finally_block_def)

lemma convert_raised:
  "path_exists w p \<Longrightarrow> otf2ttf w p = Inl e \<Longrightarrow>
   convert_otf_to_ttf w t0 t1 p =
     Inr \<lparr>filename = basename w p, success = False, error = system_error_prefix @ exc_str e,
          time = t1 - t0\<rparr>"
  by (simp add: convert_otf_to_ttf_def try_body_def except_Exception_def finally_block_def)

lemma convert_exit_zero:
  "path_exists w p \<Longrightarrow> otf2ttf w p = Inr process \<Longrightarrow> returncode process = 0 \<Longrightarrow>
   convert_otf_to_ttf w t0 t1 p =
     Inr \<lparr>filename = basename w p, success = True, error = [], time = t1 - t0\<rparr>"
  by (simp add: convert_otf_to_ttf_def try_body_def except_Exception_def finally_block_def)

lemma convert_exit_nonzero:
  "path_exists w p \<Longrightarrow> otf2ttf w p = Inr process \<Longrightarrow> returncode process \<noteq> 0 \<Longrightarrow>
   convert_otf_to_ttf w t0 t1 p =
     Inr \<lparr>filename = basename w p, success = False,
          error = last (split newline (strip (stderr process))), time = t1 - t0\<rparr>"
  by (simp add: convert_otf_to_ttf_def try_body_def except_Exception_def finally_block_def
      split_not_Nil)

lemma convert_cases:
  obtains "\<not> path_exists w p"
  | e where "path_exists w p" "otf2ttf w p = Inl e"
  | process where "path_exists w p" "otf2ttf w p = Inr process" "returncode process = 0"
  | process where "path_exists w p" "otf2ttf w p = Inr process" "returncode process \<noteq> 0"
  by (cases "otf2ttf w p") auto

lemma split_no_separator: "d \<notin> set s \<Longrightarrow> split d s = [s]"
  by (induction s) auto

lemma split_at_separator: "split d (a @ d # b) = split d a @ split d b"
  by (induction a) (auto split: list.splits simp: split_not_Nil)

lemma last_split: "last (split d s) = rev (takeWhile (\<lambda>c. c \<noteq> d) (rev s))"
proof (cases "d \<in> set s")
  case False
  then have tw: "takeWhile (\<lambda>c. c \<noteq> d) (rev s) = rev s"
    by (auto simp: takeWhile_eq_all_conv)
  show ?thesis unfolding tw by (simp add: split_no_separator [OF False])
next
  case True
  then obtain a b where s: "s = a @ d # b" and b: "d \<notin> set b"
    by (meson split_list_last)
  have tw: "takeWhile (\<lambda>c. c \<noteq> d) (rev b @ d # rev a) = rev b"
    using b by (auto simp: takeWhile_tail)
  have "last (split d s) = b"
    by (simp add: s split_at_separator split_no_separator [OF b] split_not_Nil)
  moreover have "rev (takeWhile (\<lambda>c. c \<noteq> d) (rev s)) = b"
    by (simp add: s tw)
  ultimately show ?thesis by simp
qed

lemma strip_last_not_space: "strip s \<noteq> [] \<Longrightarrow> \<not> is_space (last (strip s))"
proof -
  assume ne: "strip s \<noteq> []"
  let ?t = "dropWhile is_space (rev (dropWhile is_space s))"
  from ne have t: "?t \<noteq> []" by (simp add: strip_def)
  then have "\<not> is_space (hd ?t)" by (rule hd_dropWhile)
  moreover have "last (strip s) = hd ?t"
    using t by (simp add: strip_def last_rev)
  ultimately show ?thesis by simp
qed

text \<open>
  After a non-zero exit status the result is a failure whose error is the part of the
  stripped error stream after its last line break: it holds no line break, and it is
  empty exactly when the stream is empty or blank.
\<close>

lemma nonzero_exit_error_is_last_line:
  assumes "path_exists w p" and "otf2ttf w p = Inr process" and "returncode process \<noteq> 0"
  shows "\<exists>r. convert_otf_to_ttf w t0 t1 p = Inr r \<and> \<not> success r
     \<and> error r = rev (takeWhile (\<lambda>c. c \<noteq> newline) (rev (strip (stderr process))))
     \<and> newline \<notin> set (error r)
     \<and> (error r = [] \<longleftrightarrow> strip (stderr process) = [])"
proof -
  let ?s = "strip (stderr process)"
  let ?e = "rev (takeWhile (\<lambda>c. c \<noteq> newline) (rev ?s))"
  have no_nl: "newline \<notin> set ?e"
    using set_takeWhileD [of newline "\<lambda>c. c \<noteq> newline" "rev ?s"] by auto
  have empty: "?e = [] \<longleftrightarrow> ?s = []"
  proof
    assume e: "?e = []"
    show "?s = []"
    proof (rule ccontr)
      assume ne: "?s \<noteq> []"
      from strip_last_not_space [OF ne] have l: "last ?s \<noteq> newline"
        by (auto simp: is_space_def newline_def)
      from ne have r: "rev ?s = last ?s # rev (butlast ?s)"
        by (metis append_butlast_last_id rev_eq_Cons_iff rev_rev_ident)
      have "takeWhile (\<lambda>c. c \<noteq> newline) (last ?s # rev (butlast ?s)) \<noteq> []"
        using l by simp
      then have "takeWhile (\<lambda>c. c \<noteq> newline) (rev ?s) \<noteq> []"
        unfolding r .
      with e show False by simp
    qed
  qed simp
  from convert_exit_nonzero [OF assms, of t0 t1] no_nl empty show ?thesis
    by (simp add: last_split)
qed

section \<open>Properties of get_otf_files\<close>

lemma comprehension_filter:
  "concat (map (\<lambda>f. if P f then [g f] else []) names) = map g (filter P names)"
  by (induction names) simp_all

lemma get_otf_files_listing:
  "fs w d = Some (Directory names) \<Longrightarrow>
   get_otf_files w d =
     Inr (map (path_join w d)
            (filter (\<lambda>f. endswith (lower f) dot_otf \<and> isfile w (path_join w d f)) names))"
  by (simp add: get_otf_files_def listdir_def comprehension_filter)

lemma get_otf_files_error:
  "get_otf_files w d = Inl e \<Longrightarrow>
   (fs w d = None \<and> e = FileNotFoundError d) \<or> (fs w d = Some RegularFile \<and> e = NotADirectoryError d)"
  by (auto simp: get_otf_files_def listdir_def split: option.splits node.splits)

section \<open>Properties of the pool and of the collection loop\<close>

text \<open>\<open>as_completed\<close> yields every future exactly once, whatever the order.\<close>

lemma mset_as_completed: "mset (as_completed ks xs) = mset xs"
proof (induction ks xs rule: as_completed.induct)
  case (3 k ks x xs)
  let ?ys = "x # xs"
  let ?i = "k mod length ?ys"
  have i: "?i < length ?ys" by simp
  have "mset ?ys = mset (take ?i ?ys @ ?ys ! ?i # drop (Suc ?i) ?ys)"
    using id_take_nth_drop [OF i] by simp
  with 3 show ?case by (simp add: Let_def)
qed simp_all

lemma filter_as_completed:
  "length (filter P (as_completed ks xs)) = length (filter P xs)"
proof -
  have "size (filter_mset P (mset (as_completed ks xs))) = size (filter_mset P (mset xs))"
    by (simp add: mset_as_completed)
  then show ?thesis by (metis mset_filter size_mset)
qed

lemma length_as_completed: "length (as_completed ks xs) = length xs"
  using filter_as_completed [of "\<lambda>x. True" ks xs] by simp

lemma sum_list_as_completed:
  fixes f :: "'a \<Rightarrow> rat"
  shows "sum_list (map f (as_completed ks xs)) = sum_list (map f xs)"
proof -
  have "sum_mset (image_mset f (mset (as_completed ks xs))) = sum_mset (image_mset f (mset xs))"
    by (simp add: mset_as_completed)
  then show ?thesis by (metis mset_map sum_mset_sum_list)
qed

lemma mset_remove_nth:
  "i < length xs \<Longrightarrow> mset (take i xs @ drop (Suc i) xs) = mset xs - {#xs ! i#}"
proof -
  assume i: "i < length xs"
  have "mset xs = mset (take i xs @ xs ! i # drop (Suc i) xs)"
    using id_take_nth_drop [OF i] by simp
  then show ?thesis by simp
qed

lemma as_completed_any_order:
  "mset ys = mset xs \<Longrightarrow> \<exists>ks. as_completed ks xs = ys"
proof (induction ys arbitrary: xs)
  case Nil
  then show ?case by simp
next
  case (Cons y ys)
  then have "y \<in> set xs" by (metis list.set_intros(1) set_mset_mset)
  then obtain i where i: "i < length xs" and y: "xs ! i = y"
    by (auto simp: in_set_conv_nth)
  let ?rest = "take i xs @ drop (Suc i) xs"
  have "mset ?rest = mset xs - {#y#}" using mset_remove_nth [OF i] y by simp
  also have "\<dots> = mset ys" using Cons.prems [symmetric] by simp
  finally have "mset ys = mset ?rest" by simp
  from Cons.IH [OF this] obtain ks where ks: "as_completed ks ?rest = ys" by blast
  from i obtain x xs' where xs: "xs = x # xs'" by (cases xs) auto
  have "as_completed (i # ks) (x # xs') = (x # xs') ! i # as_completed ks (take i (x # xs') @ drop (Suc i) (x # xs'))"
    using i xs by (simp add: Let_def del: take_Suc_Cons drop_Suc_Cons nth_Cons_Suc)
  with ks y xs have "as_completed (i # ks) xs = y # ys" by simp
  then show ?case by blast
qed

lemma max_threads_pos: "1 \<le> max_threads w"
  by (simp add: max_threads_def cpu_cores_def split: option.splits)

text \<open>One round of the loop when the number of files is not zero: the progress bar is
  written, the counters advance and no exception is raised.\<close>

lemma loop_body_ok:
  "total_files \<noteq> 0 \<Longrightarrow>
   \<exists>ev. (\<exists>a b n s t e. ev = ResultLine a b n s t e) \<and> loop_body w total_files fut (tr, c) =
     (tr @ [ProgressBar (processed_count c + 1) total_files, ev],
      Inr (let r = future_result w fut in
           c\<lparr>processed_count := processed_count c + 1,
             success_count := success_count c + (if success r then 1 else 0),
             failed_count := failed_count c + (if success r then 0 else 1),
             total_processing_time := total_processing_time c + time r\<rparr>))"
  by (simp add: loop_body_def Let_def print_progress_bar_def)

text \<open>The whole loop: the counters after it, and the events it adds to the output.\<close>

lemma collect_loop_ok:
  "total_files \<noteq> 0 \<Longrightarrow>
   \<exists>tr'. collect_loop w total_files futs (tr, c) =
     (tr @ tr',
      Inr (c\<lparr>processed_count := processed_count c + int (length futs),
            success_count :=
              success_count c + int (length (filter (\<lambda>f. success (future_result w f)) futs)),
            failed_count :=
              failed_count c + int (length (filter (\<lambda>f. \<not> success (future_result w f)) futs)),
            total_processing_time :=
              total_processing_time c + sum_list (map (\<lambda>f. time (future_result w f)) futs)\<rparr>))
     \<and> (\<forall>ev \<in> set tr'.
           (\<exists>i. ev = ProgressBar i total_files \<and> processed_count c < i
                  \<and> i \<le> processed_count c + int (length futs))
           \<or> (\<exists>a b n s t e. ev = ResultLine a b n s t e))"
proof (induction futs arbitrary: tr c)
  case Nil
  then show ?case by simp
next
  case (Cons fut futs)
  from loop_body_ok [OF Cons.prems, of w fut tr c]
  obtain ev c1 where
    body: "loop_body w total_files fut (tr, c) =
             (tr @ [ProgressBar (processed_count c + 1) total_files, ev], Inr c1)"
    and ev: "\<exists>a b n s t e. ev = ResultLine a b n s t e"
    and c1: "c1 = (let r = future_result w fut in
           c\<lparr>processed_count := processed_count c + 1,
             success_count := success_count c + (if success r then 1 else 0),
             failed_count := failed_count c + (if success r then 0 else 1),
             total_processing_time := total_processing_time c + time r\<rparr>)"
    by blast
  from Cons.IH [OF Cons.prems, of "tr @ [ProgressBar (processed_count c + 1) total_files, ev]" c1]
  obtain tr' where
    rest: "collect_loop w total_files futs
             (tr @ [ProgressBar (processed_count c + 1) total_files, ev], c1) =
           ((tr @ [ProgressBar (processed_count c + 1) total_files, ev]) @ tr',
            Inr (c1\<lparr>processed_count := processed_count c1 + int (length futs),
            success_count :=
              success_count c1 + int (length (filter (\<lambda>f. success (future_result w f)) futs)),
            failed_count :=
              failed_count c1 + int (length (filter (\<lambda>f. \<not> success (future_result w f)) futs)),
            total_processing_time :=
              total_processing_time c1 + sum_list (map (\<lambda>f. time (future_result w f)) futs)\<rparr>))"
    and evs: "\<forall>ev \<in> set tr'.
           (\<exists>i. ev = ProgressBar i total_files \<and> processed_count c1 < i
                  \<and> i \<le> processed_count c1 + int (length futs))
           \<or> (\<exists>a b n s t e. ev = ResultLine a b n s t e)"
    by blast
  have p1: "processed_count c1 = processed_count c + 1"
    using c1 by (simp add: Let_def)
  let ?tr = "[ProgressBar (processed_count c + 1) total_files, ev] @ tr'"
  have "collect_loop w total_files (fut # futs) (tr, c) = (tr @ ?tr,
      Inr (c\<lparr>processed_count := processed_count c + int (length (fut # futs)),
            success_count :=
              success_count c + int (length (filter (\<lambda>f. success (future_result w f)) (fut # futs))),
            failed_count :=
              failed_count c + int (length (filter (\<lambda>f. \<not> success (future_result w f)) (fut # futs))),
            total_processing_time :=
              total_processing_time c + sum_list (map (\<lambda>f. time (future_result w f)) (fut # futs))\<rparr>))"
    using body rest c1 by (simp add: Let_def add.assoc)
  moreover have "\<forall>ev \<in> set ?tr.
           (\<exists>i. ev = ProgressBar i total_files \<and> processed_count c < i
                  \<and> i \<le> processed_count c + int (length (fut # futs)))
           \<or> (\<exists>a b n s t e. ev = ResultLine a b n s t e)"
  proof
    fix x
    assume "x \<in> set ?tr"
    then consider "x = ProgressBar (processed_count c + 1) total_files" | "x = ev" | "x \<in> set tr'"
      by auto
    then show "(\<exists>i. x = ProgressBar i total_files \<and> processed_count c < i
                  \<and> i \<le> processed_count c + int (length (fut # futs)))
           \<or> (\<exists>a b n s t e. x = ResultLine a b n s t e)"
    proof cases
      case 1
      then show ?thesis by simp
    next
      case 2
      with ev show ?thesis by blast
    next
      case 3
      with evs have "(\<exists>i. x = ProgressBar i total_files \<and> processed_count c1 < i
                  \<and> i \<le> processed_count c1 + int (length futs))
           \<or> (\<exists>a b n s t e. x = ResultLine a b n s t e)"
        by blast
      then show ?thesis using p1 by auto
    qed
  qed
  ultimately show ?case by blast
qed

lemma progress_bar_defined:
  assumes "1 \<le> i" and "i \<le> t"
  shows "\<exists>out. print_progress_bar i t = Inr out \<and> 0 < percent out \<and> percent out \<le> 100
           \<and> 0 \<le> filled_length out \<and> filled_length out \<le> bar_length
           \<and> int (length (bar out)) = bar_length"
proof -
  have t: "0 < t" using assms by simp
  let ?f = "(bar_length * i) div t"
  have f0: "0 \<le> ?f"
    using assms t by (simp add: bar_length_def pos_imp_zdiv_nonneg_iff)
  have "?f \<le> (bar_length * t) div t"
    using assms t by (intro zdiv_mono1) (simp_all add: bar_length_def)
  then have f1: "?f \<le> bar_length" using t by simp
  have p0: "0 < (100 :: rat) * (of_int i / of_int t)"
    using assms t by simp
  have "(of_int i :: rat) / of_int t \<le> 1"
    using assms t by (simp add: divide_le_eq_1)
  then have p1: "(100 :: rat) * (of_int i / of_int t) \<le> 100" by simp
  show ?thesis
    using t f0 f1 p0 p1 by (simp add: print_progress_bar_def Let_def)
qed

lemma submit_returns:
  "task_fault p f = None \<Longrightarrow> \<exists>r. snd (submit w p f) = Inr r"
  by (simp add: submit_def convert_otf_to_ttf_def finally_block_def Let_def)

lemma failure_entry_returned:
  "snd fut = Inr r \<Longrightarrow>
   failure_entry fut =
     (if \<not> success (future_result w fut)
      then [PrintFailedEntry (filename (future_result w fut)) (error (future_result w fut))]
      else [])"
  by (simp add: failure_entry_def future_result_def)

text \<open>
  When every future returns a result, the final listing has, after its header, one entry
  for each task that failed, in the order of submission; they are the results the loop
  counted as failures.
\<close>

lemma listing_without_raised_futures:
  assumes "\<forall>f \<in> set otf_files. task_fault p f = None" and "0 < failed"
  shows "failure_listing failed (map (submit w p) otf_files) =
     PrintFailedHeader #
     map (\<lambda>r. PrintFailedEntry (filename r) (error r))
       (filter (\<lambda>r. \<not> success r) (map (\<lambda>f. future_result w (submit w p f)) otf_files))"
proof -
  have "concat (map failure_entry (map (submit w p) otf_files)) =
     map (\<lambda>r. PrintFailedEntry (filename r) (error r))
       (filter (\<lambda>r. \<not> success r) (map (\<lambda>f. future_result w (submit w p f)) otf_files))"
    using assms(1)
  proof (induction otf_files)
    case Nil
    then show ?case by simp
  next
    case (Cons f fs)
    then have "task_fault p f = None" by simp
    from submit_returns [OF this, of w] obtain r where "snd (submit w p f) = Inr r" by blast
    from failure_entry_returned [OF this, of w] Cons show ?case by simp
  qed
  with assms(2) show ?thesis by (simp add: failure_listing_def)
qed

lemma listing_events:
  "ev \<in> set (failure_listing k futs) \<Longrightarrow>
   ev = PrintFailedHeader \<or> (\<exists>f e. ev = PrintFailedEntry f e)"
  by (auto simp: failure_listing_def failure_entry_def split: sum.splits if_splits)

section \<open>The runs of main, by how they end\<close>

text \<open>The guards keep both divisions from a zero divisor: the figures are always computed.\<close>

lemma finalize_returns:
  "\<exists>r. finalize c total_files t0 t1 = Inr r \<and> final r = c"
  by (simp add: finalize_def true_div_def Let_def)

lemma main_no_directory:
  "get_otf_files w font_dir = Inl e \<Longrightarrow>
   main w p t0 t1 = (if IS_WINDOWS w then [SetCodePage] else [], Inl e)"
  by (simp add: main_def)

lemma main_no_files:
  "get_otf_files w font_dir = Inr [] \<Longrightarrow>
   main w p t0 t1 = ((if IS_WINDOWS w then [SetCodePage] else []) @ [PrintNoFiles], Inr None)"
  by (simp add: main_def)

text \<open>A run that found files: its output and the report it ends with.\<close>

lemma main_run:
  assumes files: "get_otf_files w font_dir = Inr otf_files" and ne: "otf_files \<noteq> []"
  shows "\<exists>loop_tr c r.
     main w p t0 t1 =
       ((if IS_WINDOWS w then [SetCodePage] else [])
          @ PrintBanner font_dir (int (length otf_files)) (max_threads w) (cpu_cores w)
          # PoolStart (max_threads w) # map Submit otf_files
          @ loop_tr
          @ [PoolShutdown,
             PrintReport (success_count c) (failed_count c)
               (total_duration r) (avg_time_per_file r) (files_per_second r)]
          @ failure_listing (failed_count c) (map (submit w p) otf_files)
          @ [PrintFooter],
        Inr (Some r))
     \<and> finalize c (int (length otf_files)) t0 t1 = Inr r
     \<and> c = \<lparr>success_count =
               int (length (filter (\<lambda>f. success (future_result w f)) (map (submit w p) otf_files))),
             failed_count =
               int (length (filter (\<lambda>f. \<not> success (future_result w f)) (map (submit w p) otf_files))),
             processed_count = int (length otf_files),
             total_processing_time =
               sum_list (map (\<lambda>f. time (future_result w f)) (map (submit w p) otf_files))\<rparr>
     \<and> (\<forall>ev \<in> set loop_tr.
           (\<exists>i. ev = ProgressBar i (int (length otf_files)) \<and> 0 < i \<and> i \<le> int (length otf_files))
           \<or> (\<exists>a b n s t e. ev = ResultLine a b n s t e))"
proof -
  let ?n = "int (length otf_files)"
  let ?futs = "map (submit w p) otf_files"
  let ?init = "\<lparr>success_count = 0, failed_count = 0, processed_count = 0,
              total_processing_time = 0\<rparr>"
  let ?c = "\<lparr>success_count = int (length (filter (\<lambda>f. success (future_result w f)) ?futs)),
             failed_count = int (length (filter (\<lambda>f. \<not> success (future_result w f)) ?futs)),
             processed_count = ?n,
             total_processing_time = sum_list (map (\<lambda>f. time (future_result w f)) ?futs)\<rparr>"
  let ?tr2 = "(if IS_WINDOWS w then [SetCodePage] else [])
          @ PrintBanner font_dir ?n (max_threads w) (cpu_cores w)
          # PoolStart (max_threads w) # map Submit otf_files"
  have n: "?n \<noteq> 0" using ne by simp
  from collect_loop_ok [OF n, of w "as_completed (completion p) ?futs" ?tr2 ?init]
  obtain loop_tr where
    loop: "collect_loop w ?n (as_completed (completion p) ?futs) (?tr2, ?init) =
       (?tr2 @ loop_tr, Inr ?c)"
    and bars: "\<forall>ev \<in> set loop_tr.
           (\<exists>i. ev = ProgressBar i ?n \<and> 0 < i \<and> i \<le> ?n)
           \<or> (\<exists>a b n s t e. ev = ResultLine a b n s t e)"
    by (auto simp: filter_as_completed length_as_completed sum_list_as_completed)
  have mt: "\<not> max_threads w \<le> 0" using max_threads_pos [of w] by simp
  from finalize_returns [of ?c ?n t0 t1] obtain r where fin: "finalize ?c ?n t0 t1 = Inr r"
    by blast
  have "main w p t0 t1 =
       (?tr2 @ loop_tr
          @ [PoolShutdown,
             PrintReport (success_count ?c) (failed_count ?c)
               (total_duration r) (avg_time_per_file r) (files_per_second r)]
          @ failure_listing (failed_count ?c) ?futs
          @ [PrintFooter],
        Inr (Some r))"
    using files n mt loop fin by (simp add: main_def Let_def)
  then have m: "main w p t0 t1 =
       ((if IS_WINDOWS w then [SetCodePage] else [])
          @ PrintBanner font_dir ?n (max_threads w) (cpu_cores w)
          # PoolStart (max_threads w) # map Submit otf_files
          @ loop_tr
          @ [PoolShutdown,
             PrintReport (success_count ?c) (failed_count ?c)
               (total_duration r) (avg_time_per_file r) (files_per_second r)]
          @ failure_listing (failed_count ?c) ?futs
          @ [PrintFooter],
        Inr (Some r))"
    by (simp only: append_assoc append_Cons)
  show ?thesis
    by (rule exI [of _ loop_tr], rule exI [of _ ?c], rule exI [of _ r], intro conjI)
       (rule m, rule fin, rule refl, rule bars)
qed

text \<open>The events of a run, by kind.\<close>

lemma main_events:
  assumes "ev \<in> set (fst (main w p t0 t1))"
  shows "ev = SetCodePage \<or> ev = PrintNoFiles \<or> ev = PoolShutdown \<or> ev = PrintFooter
     \<or> ev = PrintFailedHeader \<or> (\<exists>f e. ev = PrintFailedEntry f e)
     \<or> (\<exists>a b c d. ev = PrintBanner a b c d) \<or> (\<exists>a b c d e. ev = PrintReport a b c d e)
     \<or> (\<exists>f. ev = Submit f) \<or> (\<exists>a b n s t e. ev = ResultLine a b n s t e)
     \<or> ev = PoolStart (max_threads w)
     \<or> (\<exists>files i. get_otf_files w font_dir = Inr files \<and> files \<noteq> []
           \<and> ev = ProgressBar i (int (length files)) \<and> 0 < i \<and> i \<le> int (length files))"
proof (cases "get_otf_files w font_dir")
  case (Inl e)
  with assms have "ev = SetCodePage" by (simp add: main_no_directory split: if_splits)
  then show ?thesis by simp
next
  case (Inr files)
  show ?thesis
  proof (cases "files = []")
    case True
    with Inr assms have "ev = SetCodePage \<or> ev = PrintNoFiles"
      by (auto simp: main_no_files split: if_splits)
    then show ?thesis by auto
  next
    case False
    let ?n = "int (length files)"
    from main_run [OF Inr False, of p t0 t1] obtain loop_tr c r where
      m: "main w p t0 t1 =
       ((if IS_WINDOWS w then [SetCodePage] else [])
          @ PrintBanner font_dir ?n (max_threads w) (cpu_cores w)
          # PoolStart (max_threads w) # map Submit files
          @ loop_tr
          @ [PoolShutdown,
             PrintReport (success_count c) (failed_count c)
               (total_duration r) (avg_time_per_file r) (files_per_second r)]
          @ failure_listing (failed_count c) (map (submit w p) files)
          @ [PrintFooter],
        Inr (Some r))"
      and fin: "finalize c ?n t0 t1 = Inr r"
      and loop: "\<forall>ev \<in> set loop_tr.
           (\<exists>i. ev = ProgressBar i ?n \<and> 0 < i \<and> i \<le> ?n)
           \<or> (\<exists>a b n s t e. ev = ResultLine a b n s t e)"
      by (elim exE conjE) (rule that)
    have "ev \<in> set (if IS_WINDOWS w then [SetCodePage] else [])
      \<or> ev = PrintBanner font_dir ?n (max_threads w) (cpu_cores w)
      \<or> ev = PoolStart (max_threads w)
      \<or> ev \<in> set (map Submit files)
      \<or> ev \<in> set loop_tr
      \<or> ev = PoolShutdown
      \<or> ev = PrintReport (success_count c) (failed_count c)
               (total_duration r) (avg_time_per_file r) (files_per_second r)
      \<or> ev \<in> set (failure_listing (failed_count c) (map (submit w p) files))
      \<or> ev = PrintFooter"
      using assms unfolding m fst_conv set_append set_simps Un_iff insert_iff empty_iff
      by blast
    then consider "ev \<in> set (if IS_WINDOWS w then [SetCodePage] else [])"
      | "ev = PrintBanner font_dir ?n (max_threads w) (cpu_cores w)"
      | "ev = PoolStart (max_threads w)"
      | "ev \<in> set (map Submit files)"
      | "ev \<in> set loop_tr"
      | "ev = PoolShutdown"
      | "ev = PrintReport (success_count c) (failed_count c)
               (total_duration r) (avg_time_per_file r) (files_per_second r)"
      | "ev \<in> set (failure_listing (failed_count c) (map (submit w p) files))"
      | "ev = PrintFooter"
      by blast
    then show ?thesis
    proof cases
      case 1
      then have "ev = SetCodePage" by (simp split: if_splits)
      then show ?thesis by simp
    next
      case 2
      then show ?thesis by simp
    next
      case 3
      then show ?thesis by simp
    next
      case 4
      then obtain f where "ev = Submit f" by auto
      then show ?thesis by simp
    next
      case 5
      with loop have "(\<exists>i. ev = ProgressBar i ?n \<and> 0 < i \<and> i \<le> ?n)
           \<or> (\<exists>a b n s t e. ev = ResultLine a b n s t e)"
        by blast
      then show ?thesis
      proof
        assume "\<exists>i. ev = ProgressBar i ?n \<and> 0 < i \<and> i \<le> ?n"
        with Inr False
        have "\<exists>files i. get_otf_files w font_dir = Inr files \<and> files \<noteq> []
           \<and> ev = ProgressBar i (int (length files)) \<and> 0 < i \<and> i \<le> int (length files)"
          by blast
        then show ?thesis by (intro disjI2)
      next
        assume "\<exists>a b n s t e. ev = ResultLine a b n s t e"
        then obtain a b n s t e where "ev = ResultLine a b n s t e" by blast
        then show ?thesis by simp
      qed
    next
      case 6
      then show ?thesis by simp
    next
      case 7
      then show ?thesis by simp
    next
      case 8
      from listing_events [OF this] show ?thesis by auto
    next
      case 9
      then show ?thesis by simp
    qed
  qed
qed

lemma main_outcome:
  "snd (main w p t0 t1) = Inl (FileNotFoundError font_dir)
   \<or> snd (main w p t0 t1) = Inl (NotADirectoryError font_dir)
   \<or> (\<exists>r. snd (main w p t0 t1) = Inr r)"
proof (cases "get_otf_files w font_dir")
  case (Inl e)
  from get_otf_files_error [OF Inl] main_no_directory [OF Inl, of p t0 t1]
  show ?thesis by auto
next
  case (Inr files)
  show ?thesis
  proof (cases "files = []")
    case True
    with Inr show ?thesis by (simp add: main_no_files)
  next
    case False
    from main_run [OF Inr False, of p t0 t1] obtain tr r where
      "main w p t0 t1 = (tr, Inr (Some r))"
      by (elim exE conjE) (rule that)
    then show ?thesis by simp
  qed
qed

section \<open>The sample runs, evaluated\<close>

lemma sample_files:
  "get_otf_files sample_world font_dir =
     Inr [in_font_dir name_a, in_font_dir name_b, in_font_dir name_c]"
proof -
  have "fs sample_world font_dir = Some (Directory [name_a, name_b, name_c, name_txt])"
    by (simp add: sample_world_def)
  from get_otf_files_listing [OF this] show ?thesis
    by (simp add: endswith_def lower_def lower_cp_def dot_otf_def isfile_def path_join_def
        after_drive_def
        is_sep_def sep_def sample_defs)
qed

lemma sample_exists:
  "path_exists sample_world (in_font_dir name_a)"
  "path_exists sample_world (in_font_dir name_b)"
  "path_exists sample_world (in_font_dir name_c)"
  by (simp_all add: path_exists_def sample_defs)

lemma sample_basename:
  "basename sample_world (in_font_dir name_a) = name_a"
  "basename sample_world (in_font_dir name_b) = name_b"
  "basename sample_world (in_font_dir name_c) = name_c"
  by (simp_all add: basename_def after_drive_def is_sep_def sample_defs)

lemma sample_otf2ttf:
  "otf2ttf sample_world (in_font_dir name_a) = Inr (CompletedProcess 0 [])"
  "otf2ttf sample_world (in_font_dir name_b) = Inr (CompletedProcess 0 [])"
  "otf2ttf sample_world (in_font_dir name_c) = Inr (CompletedProcess 1 (bad_glyph_table @ [10]))"
  by (simp_all add: sample_defs)

lemma sample_last_line:
  "last (split newline (strip (bad_glyph_table @ [10]))) = bad_glyph_table"
  by (simp add: strip_def is_space_def newline_def bad_glyph_table_def)

lemma sample_convert:
  "convert_otf_to_ttf sample_world t0 t1 (in_font_dir name_a) =
     Inr \<lparr>filename = name_a, success = True, error = [], time = t1 - t0\<rparr>"
  "convert_otf_to_ttf sample_world t0 t1 (in_font_dir name_b) =
     Inr \<lparr>filename = name_b, success = True, error = [], time = t1 - t0\<rparr>"
  "convert_otf_to_ttf sample_world t0 t1 (in_font_dir name_c) =
     Inr \<lparr>filename = name_c, success = False, error = bad_glyph_table, time = t1 - t0\<rparr>"
  using convert_exit_zero [OF sample_exists(1) sample_otf2ttf(1), of t0 t1]
    convert_exit_zero [OF sample_exists(2) sample_otf2ttf(2), of t0 t1]
    convert_exit_nonzero [OF sample_exists(3) sample_otf2ttf(3), of t0 t1]
  by (simp_all add: sample_basename sample_last_line)

lemma as_completed_three: "as_completed [2, 0, 0] [x, y, z] = [z, x, y]"
  by (simp add: Let_def)

lemma sample_submit:
  "submit sample_world sample_pool (in_font_dir name_a) =
     (in_font_dir name_a, Inr \<lparr>filename = name_a, success = True, error = [], time = 2\<rparr>)"
  "submit sample_world sample_pool (in_font_dir name_b) =
     (in_font_dir name_b, Inr \<lparr>filename = name_b, success = True, error = [], time = 2\<rparr>)"
  "submit sample_world sample_pool (in_font_dir name_c) =
     (in_font_dir name_c,
      Inr \<lparr>filename = name_c, success = False, error = bad_glyph_table, time = 2\<rparr>)"
  by (simp_all add: submit_def sample_pool_def sample_convert)

lemma sample_distinct:
  "in_font_dir name_b \<noteq> in_font_dir name_a" "in_font_dir name_c \<noteq> in_font_dir name_a"
  by (simp_all add: in_font_dir_def name_a_def name_b_def name_c_def)

lemma faulty_submit:
  "submit sample_world faulty_pool (in_font_dir name_a) =
     (in_font_dir name_a, Inl (OtherException (map of_char ''boom'')))"
  "submit sample_world faulty_pool (in_font_dir name_b) =
     (in_font_dir name_b, Inr \<lparr>filename = name_b, success = True, error = [], time = 2\<rparr>)"
  "submit sample_world faulty_pool (in_font_dir name_c) =
     (in_font_dir name_c,
      Inr \<lparr>filename = name_c, success = False, error = bad_glyph_table, time = 2\<rparr>)"
  by (simp_all add: submit_def faulty_pool_def sample_pool_def sample_convert sample_distinct)

lemma sample_threads: "max_threads sample_world = 8" "cpu_cores sample_world = 4"
  by (simp_all add: max_threads_def cpu_cores_def sample_world_def)

lemma name_lengths:
  "take 40 name_a = name_a" "drop 40 name_a = []"
  "take 40 name_b = name_b" "drop 40 name_b = []"
  "take 40 name_c = name_c" "drop 40 name_c = []"
  "take 50 bad_glyph_table = bad_glyph_table"
  "length name_a = 5" "length name_b = 5" "length name_c = 5" "length bad_glyph_table = 15"
  by (simp_all add: name_a_def name_b_def name_c_def bad_glyph_table_def)

lemma sample_main:
  "main sample_world sample_pool 0 5 =
  ([SetCodePage, PrintBanner font_dir 3 8 4, PoolStart 8,
   Submit (in_font_dir name_a), Submit (in_font_dir name_b), Submit (in_font_dir name_c),
   ProgressBar 1 3, ResultLine 1 3 name_c False 2 (Some bad_glyph_table),
   ProgressBar 2 3, ResultLine 2 3 name_a True 2 None,
   ProgressBar 3 3, ResultLine 3 3 name_b True 2 None,
   PoolShutdown, PrintReport 2 1 5 2 (2 / 5), PrintFailedHeader,
   PrintFailedEntry name_c bad_glyph_table, PrintFooter],
   Inr (Some \<lparr>final = \<lparr>success_count = 2, failed_count = 1, processed_count = 3,
                        total_processing_time = 6\<rparr>,
              total_duration = 5, avg_time_per_file = 2, files_per_second = 2 / 5\<rparr>))"
proof -
  have win: "IS_WINDOWS sample_world" by (simp add: sample_world_def)
  have order: "completion sample_pool = [2, 0, 0]" by (simp add: sample_pool_def)
  show ?thesis
    by (simp add: main_def sample_files win order sample_threads sample_submit
        as_completed_three loop_body_def future_result_def print_progress_bar_def
        name_lengths finalize_def true_div_def failure_listing_def failure_entry_def Let_def)
qed

lemma nonzero_exit_error_is_last_line_example:
  "\<exists>r. convert_otf_to_ttf sample_world 1 3 (in_font_dir name_c) = Inr r \<and> \<not> success r
     \<and> error r = bad_glyph_table"
  using nonzero_exit_error_is_last_line [OF sample_exists(3) sample_otf2ttf(3), of 1 3]
  by (simp add: sample_convert)

lemma listing_without_raised_futures_example:
  "failure_listing 1 (map (submit sample_world sample_pool)
       [in_font_dir name_a, in_font_dir name_b, in_font_dir name_c]) =
     [PrintFailedHeader, PrintFailedEntry name_c bad_glyph_table]"
proof -
  have a: "\<forall>f \<in> set [in_font_dir name_a, in_font_dir name_b, in_font_dir name_c].
            task_fault sample_pool f = None"
    by (simp add: sample_pool_def)
  have b: "(0::int) < 1" by simp
  from listing_without_raised_futures [OF a b, of sample_world] show ?thesis
    by (simp add: sample_submit future_result_def)
qed

lemma as_completed_any_order_example:
  "\<exists>ks. as_completed ks [1, 2, 3 :: nat] = [3, 1, 2]"
  using as_completed_any_order [of "[3, 1, 2 :: nat]" "[1, 2, 3]"] by simp

section \<open>The claims\<close>

text \<open>
  Claim C1. In every run that found \<open>N\<close> files (\<open>N > 0\<close>, so the run reaches the
  pool), whatever the outcome of each task and whatever the order of completion: the
  loop ends without an exception, \<^verbatim>\<open>processed_count\<close> is \<open>N\<close>,
  \<^verbatim>\<open>success_count + failed_count = processed_count\<close>, the successes counted are the
  submitted tasks whose result is a success, the failures counted are all the others,
  and the futures the loop ran over are the submitted ones, each once.
\<close>

theorem main_counts_every_task:
  assumes "get_otf_files w font_dir = Inr otf_files" and "otf_files \<noteq> []"
  shows "\<exists>tr r. main w p t0 t1 = (tr, Inr (Some r))
     \<and> processed_count (final r) = int (length otf_files)
     \<and> success_count (final r) + failed_count (final r) = processed_count (final r)
     \<and> success_count (final r) =
         int (length (filter (\<lambda>f. success (future_result w f)) (map (submit w p) otf_files)))
     \<and> failed_count (final r) =
         int (length (filter (\<lambda>f. \<not> success (future_result w f)) (map (submit w p) otf_files)))
     \<and> mset (as_completed (completion p) (map (submit w p) otf_files))
         = mset (map (submit w p) otf_files)"
proof -
  let ?futs = "map (submit w p) otf_files"
  from main_run [OF assms, of p t0 t1] obtain tr c r where
    m: "main w p t0 t1 = (tr, Inr (Some r))"
    and fin: "finalize c (int (length otf_files)) t0 t1 = Inr r"
    and c: "c = \<lparr>success_count = int (length (filter (\<lambda>f. success (future_result w f)) ?futs)),
             failed_count = int (length (filter (\<lambda>f. \<not> success (future_result w f)) ?futs)),
             processed_count = int (length otf_files),
             total_processing_time = sum_list (map (\<lambda>f. time (future_result w f)) ?futs)\<rparr>"
    by (elim exE conjE) (rule that)
  have f: "final r = c"
    using fin finalize_returns [of c "int (length otf_files)" t0 t1] by simp
  have total: "length (filter (\<lambda>f. success (future_result w f)) ?futs)
          + length (filter (\<lambda>f. \<not> success (future_result w f)) ?futs) = length otf_files"
    using sum_length_filter_compl [of "\<lambda>f. success (future_result w f)" ?futs] by simp
  have sum: "success_count c + failed_count c = processed_count c"
    using total unfolding c by (simp only: counters.simps flip: of_nat_add)
  show ?thesis
    apply (rule exI [of _ tr], rule exI [of _ r])
    apply (simp only: f)
    apply (intro conjI)
         apply (rule m)
        apply (simp add: c)
       apply (rule sum)
      apply (simp add: c)
     apply (simp add: c)
    apply (rule mset_as_completed)
    done
qed

theorem main_counts_every_task_witness:
  "\<exists>tr r. main sample_world sample_pool 0 5 = (tr, Inr (Some r))
     \<and> processed_count (final r) = 3
     \<and> success_count (final r) = 2 \<and> failed_count (final r) = 1
     \<and> success_count (final r) + failed_count (final r) = processed_count (final r)"
proof -
  have ne: "[in_font_dir name_a, in_font_dir name_b, in_font_dir name_c] \<noteq> []" by simp
  from main_counts_every_task [OF sample_files ne, of sample_pool 0 5]
  show ?thesis by (simp add: sample_main)
qed

text \<open>
  Claim C2, at a converter that exits with status 1 and an empty error stream: the
  result is a failure, and its error is the empty string, not the \<^verbatim>\<open>"unknown error"\<close>
  message. By \<open>nonzero_exit_error_is_last_line\<close> the error after a non-zero exit is
  always the last line of the stripped stream, which is not empty when the stream has a
  character other than white space; \<open>split\<close> never gives the empty list, so the branch
  with the message is never taken.
\<close>

theorem silent_failure_has_empty_error:
  "convert_otf_to_ttf silent_failure_world 1 3 (in_font_dir name_c) =
     Inr \<lparr>filename = name_c, success = False, error = [], time = 2\<rparr>
   \<and> unknown_error_msg \<noteq> []"
  by (simp add: convert_otf_to_ttf_def try_body_def except_Exception_def finally_block_def
      path_exists_def basename_def after_drive_def is_sep_def silent_failure_world_def
      strip_def newline_def
      unknown_error_msg_def sample_defs)

text \<open>
  Claim C3. No call of \<^verbatim>\<open>convert_otf_to_ttf\<close> raises: for every path it returns a
  result. When the file exists and launching or running the converter raises \<open>e\<close>,
  the result is a failure whose error is \<^verbatim>\<open>"system error: "\<close> (in the source's language)
  followed by the message of \<open>e\<close>.
\<close>

theorem convert_never_raises:
  "(\<exists>r. convert_otf_to_ttf w t0 t1 p = Inr r) \<and>
   (path_exists w p \<longrightarrow> otf2ttf w p = Inl e \<longrightarrow>
      convert_otf_to_ttf w t0 t1 p =
        Inr \<lparr>filename = basename w p, success = False,
             error = system_error_prefix @ exc_str e, time = t1 - t0\<rparr>)"
  by (cases w p rule: convert_cases)
     (simp_all add: convert_missing convert_raised convert_exit_zero convert_exit_nonzero)

theorem convert_never_raises_witness:
  "convert_otf_to_ttf no_converter_world 1 3 (in_font_dir name_a) =
     Inr \<lparr>filename = name_a, success = False,
          error = system_error_prefix @ map of_char ''otf2ttf'', time = 2\<rparr>"
proof -
  have ex: "path_exists no_converter_world (in_font_dir name_a)"
    by (simp add: path_exists_def no_converter_world_def sample_defs)
  have run: "otf2ttf no_converter_world (in_font_dir name_a) =
               Inl (FileNotFoundError (map of_char ''otf2ttf''))"
    by (simp add: no_converter_world_def)
  have base: "basename no_converter_world (in_font_dir name_a) = name_a"
    by (simp add: basename_def after_drive_def is_sep_def no_converter_world_def sample_defs)
  from convert_never_raises [of no_converter_world 1 3 "in_font_dir name_a"] ex run base
  show ?thesis by simp
qed

text \<open>
  Claim C4, at a run over \<^verbatim>\<open>a.otf\<close>, \<^verbatim>\<open>b.OTF\<close> and \<^verbatim>\<open>c.otf\<close> in which the future of
  \<^verbatim>\<open>a.otf\<close> raises and the converter fails on \<^verbatim>\<open>c.otf\<close>. The loop counts two
  failures and shows both, the one of \<^verbatim>\<open>a.otf\<close> with the message made from the
  exception; the final listing has the entry of \<^verbatim>\<open>c.otf\<close> only. When no future
  raises, the listing has every failed task once (\<open>listing_without_raised_futures\<close>).
\<close>

theorem faulty_run_omits_raised_task:
  "main sample_world faulty_pool 0 5 =
  ([SetCodePage, PrintBanner font_dir 3 8 4, PoolStart 8,
   Submit (in_font_dir name_a), Submit (in_font_dir name_b), Submit (in_font_dir name_c),
   ProgressBar 1 3, ResultLine 1 3 name_c False 2 (Some bad_glyph_table),
   ProgressBar 2 3,
   ResultLine 2 3 name_a False 0 (Some (task_error_prefix @ map of_char ''boom'')),
   ProgressBar 3 3, ResultLine 3 3 name_b True 2 None,
   PoolShutdown, PrintReport 1 2 5 (4 / 3) (1 / 5), PrintFailedHeader,
   PrintFailedEntry name_c bad_glyph_table, PrintFooter],
   Inr (Some \<lparr>final = \<lparr>success_count = 1, failed_count = 2, processed_count = 3,
                        total_processing_time = 4\<rparr>,
              total_duration = 5, avg_time_per_file = 4 / 3, files_per_second = 1 / 5\<rparr>))"
proof -
  have win: "IS_WINDOWS sample_world" by (simp add: sample_world_def)
  have order: "completion faulty_pool = [2, 0, 0]" by (simp add: faulty_pool_def sample_pool_def)
  have base: "basename sample_world (in_font_dir name_a) = name_a" by (rule sample_basename)
  have len: "length task_error_prefix = 6"
    by (simp add: task_error_prefix_def)
  show ?thesis
    by (simp add: main_def sample_files win order sample_threads faulty_submit
        as_completed_three loop_body_def future_result_def print_progress_bar_def
        name_lengths finalize_def true_div_def failure_listing_def failure_entry_def Let_def
        base len)
qed

text \<open>
  Claim C5. With \<open>c\<close> the detected number of logical CPUs, 1 when the detection gives
  nothing, the size of the pool is \<open>min (2 * c) 32\<close> and it is at least 1; it is the
  size \<^verbatim>\<open>main\<close> starts the pool with.
\<close>

theorem max_threads_policy:
  "max_threads w = min (2 * cpu_cores w) 32 \<and> 1 \<le> max_threads w
   \<and> cpu_cores (w\<lparr>cpu_count := None\<rparr>) = 1
   \<and> cpu_cores (w\<lparr>cpu_count := Some (Suc n)\<rparr>) = int (Suc n)
   \<and> (PoolStart k \<in> set (fst (main w p t0 t1)) \<longrightarrow> k = max_threads w)"
proof (intro conjI impI)
  show "max_threads w = min (2 * cpu_cores w) 32"
    by (simp add: max_threads_def mult.commute)
  show "1 \<le> max_threads w" by (rule max_threads_pos)
  show "cpu_cores (w\<lparr>cpu_count := None\<rparr>) = 1" by (simp add: cpu_cores_def)
  show "cpu_cores (w\<lparr>cpu_count := Some (Suc n)\<rparr>) = int (Suc n)" by (simp add: cpu_cores_def)
next
  assume "PoolStart k \<in> set (fst (main w p t0 t1))"
  from main_events [OF this] show "k = max_threads w" by auto
qed

theorem max_threads_policy_witness:
  "PoolStart 8 \<in> set (fst (main sample_world sample_pool 0 5))
   \<and> max_threads sample_world = 8
   \<and> max_threads (sample_world\<lparr>cpu_count := Some 1\<rparr>) = 2
   \<and> max_threads (sample_world\<lparr>cpu_count := Some 64\<rparr>) = 32
   \<and> max_threads (sample_world\<lparr>cpu_count := None\<rparr>) = 2"
proof -
  have mem: "PoolStart 8 \<in> set (fst (main sample_world sample_pool 0 5))"
    by (simp add: sample_main)
  have c1: "cpu_cores (sample_world\<lparr>cpu_count := Some 1\<rparr>) = 1"
    and c64: "cpu_cores (sample_world\<lparr>cpu_count := Some 64\<rparr>) = 64"
    by (simp_all add: cpu_cores_def)
  from max_threads_policy [of sample_world 0 8 sample_pool 0 5] mem
    max_threads_policy [of "sample_world\<lparr>cpu_count := Some 1\<rparr>" 0 8 sample_pool 0 5]
    max_threads_policy [of "sample_world\<lparr>cpu_count := Some 64\<rparr>" 0 8 sample_pool 0 5]
    max_threads_policy [of "sample_world\<lparr>cpu_count := None\<rparr>" 0 8 sample_pool 0 5]
  show ?thesis by (simp add: c1 c64)
qed

text \<open>
  Claim C6, as the code has it. After the loop the figures are always computed, no
  division raises: the average time per file is the summed time of the files divided by
  the number of files, and exactly 0 when there are no files; the throughput is the
  number of successes divided by the duration of the run when that duration is positive,
  and exactly 0 otherwise, that is when the duration is 0 and also when the clock was
  set back during the run and the difference of its two readings is negative. These are
  the figures of the report \<^verbatim>\<open>main\<close> ends with.
\<close>

theorem finalize_statistics:
  "finalize c (int n) start_total_time end_total_time =
     Inr \<lparr>final = c,
          total_duration = end_total_time - start_total_time,
          avg_time_per_file = (if n = 0 then 0 else total_processing_time c / of_nat n),
          files_per_second =
            (if end_total_time - start_total_time > 0
             then of_int (success_count c) / (end_total_time - start_total_time) else 0)\<rparr>
   \<and> (get_otf_files w font_dir = Inr files \<longrightarrow> files \<noteq> [] \<longrightarrow>
        (\<exists>tr r. main w p start_total_time end_total_time = (tr, Inr (Some r))
           \<and> finalize (final r) (int (length files)) start_total_time end_total_time = Inr r))"
proof (intro conjI impI)
  show "finalize c (int n) start_total_time end_total_time =
     Inr \<lparr>final = c,
          total_duration = end_total_time - start_total_time,
          avg_time_per_file = (if n = 0 then 0 else total_processing_time c / of_nat n),
          files_per_second =
            (if end_total_time - start_total_time > 0
             then of_int (success_count c) / (end_total_time - start_total_time) else 0)\<rparr>"
    by (simp add: finalize_def true_div_def Let_def)
next
  assume files: "get_otf_files w font_dir = Inr files" and ne: "files \<noteq> []"
  from main_run [OF files ne, of p start_total_time end_total_time] obtain tr c' r where
    m: "main w p start_total_time end_total_time = (tr, Inr (Some r))"
    and fin: "finalize c' (int (length files)) start_total_time end_total_time = Inr r"
    by (elim exE conjE) (rule that)
  have "final r = c'"
    using fin finalize_returns [of c' "int (length files)" start_total_time end_total_time]
    by simp
  with m fin
  show "\<exists>tr r. main w p start_total_time end_total_time = (tr, Inr (Some r))
           \<and> finalize (final r) (int (length files)) start_total_time end_total_time = Inr r"
    by simp
qed

theorem finalize_statistics_witness:
  "finalize sample_counters 3 0 5 =
     Inr \<lparr>final = sample_counters, total_duration = 5, avg_time_per_file = 2,
          files_per_second = 2 / 5\<rparr>
   \<and> finalize sample_counters 3 7 7 =
     Inr \<lparr>final = sample_counters, total_duration = 0, avg_time_per_file = 2,
          files_per_second = 0\<rparr>
   \<and> finalize \<lparr>success_count = 0, failed_count = 0, processed_count = 0,
                 total_processing_time = 0\<rparr> 0 0 5 =
     Inr \<lparr>final = \<lparr>success_count = 0, failed_count = 0, processed_count = 0,
                     total_processing_time = 0\<rparr>,
          total_duration = 5, avg_time_per_file = 0, files_per_second = 0\<rparr>
   \<and> (\<exists>tr r. main sample_world sample_pool 0 5 = (tr, Inr (Some r))
         \<and> finalize (final r) 3 0 5 = Inr r)"
proof -
  note a = finalize_statistics [of sample_counters 3 0 5 sample_world
        "[in_font_dir name_a, in_font_dir name_b, in_font_dir name_c]" sample_pool]
  note b = finalize_statistics [of sample_counters 3 7 7 sample_world "[]" sample_pool]
  note c = finalize_statistics [of "\<lparr>success_count = 0, failed_count = 0,
        processed_count = 0, total_processing_time = 0\<rparr>" 0 0 5 sample_world "[]" sample_pool]
  from a b c show ?thesis by (simp add: sample_files sample_counters_def)
qed

text \<open>
  The throughput when the clock was set back by two seconds during a run with two
  successes: the figure is 0, not the number of successes divided by the duration.
\<close>

theorem throughput_after_clock_set_back:
  "finalize sample_counters 3 5 3 =
     Inr \<lparr>final = sample_counters, total_duration = - 2, avg_time_per_file = 2,
          files_per_second = 0\<rparr>
   \<and> of_int (success_count sample_counters) / (3 - 5) \<noteq> (0 :: rat)"
  by (simp add: finalize_def true_div_def Let_def sample_counters_def)

text \<open>
  Claim C7. When the font directory exists and none of its entries is a file whose name
  ends in \<^verbatim>\<open>.otf\<close> (in any case), \<^verbatim>\<open>main\<close> prints that no file was found and
  returns: no pool is started and nothing is submitted.
\<close>

theorem main_zero_files:
  assumes "fs w font_dir = Some (Directory names)"
    and "\<forall>f \<in> set names. \<not> (endswith (lower f) dot_otf \<and> isfile w (path_join w font_dir f))"
  shows "main w p t0 t1 = ((if IS_WINDOWS w then [SetCodePage] else []) @ [PrintNoFiles], Inr None)
     \<and> PoolStart k \<notin> set (fst (main w p t0 t1))
     \<and> Submit file \<notin> set (fst (main w p t0 t1))"
proof -
  have "filter (\<lambda>f. endswith (lower f) dot_otf \<and> isfile w (path_join w font_dir f)) names = []"
    using assms(2) by (simp add: filter_empty_conv)
  with get_otf_files_listing [OF assms(1)] have "get_otf_files w font_dir = Inr []"
    by simp
  from main_no_files [OF this, of p t0 t1] show ?thesis by simp
qed

theorem main_zero_files_witness:
  "main no_fonts_world sample_pool 0 5 = ([SetCodePage, PrintNoFiles], Inr None)"
proof -
  have d: "fs no_fonts_world font_dir = Some (Directory [name_txt])"
    by (simp add: no_fonts_world_def)
  have f: "\<forall>f \<in> set [name_txt].
      \<not> (endswith (lower f) dot_otf \<and> isfile no_fonts_world (path_join no_fonts_world font_dir f))"
    by (simp add: endswith_def lower_def lower_cp_def dot_otf_def name_txt_def)
  have win: "IS_WINDOWS no_fonts_world"
    by (simp add: no_fonts_world_def sample_world_def)
  from main_zero_files [OF d f, of sample_pool 0 5] win show ?thesis by simp
qed

text \<open>
  Claim C8. When the font directory does not exist, or is a file, the exception of
  \<^verbatim>\<open>os.listdir\<close> leaves \<^verbatim>\<open>main\<close>: \<^verbatim>\<open>FileNotFoundError\<close> in the first case and
  \<^verbatim>\<open>NotADirectoryError\<close> in the second. Nothing but the code page command has
  happened by then: no pool, no task, no conversion.
\<close>

theorem main_directory_missing:
  "(fs w font_dir = None \<longrightarrow>
      main w p t0 t1 =
        (if IS_WINDOWS w then [SetCodePage] else [], Inl (FileNotFoundError font_dir)))
   \<and> (fs w font_dir = Some RegularFile \<longrightarrow>
      main w p t0 t1 =
        (if IS_WINDOWS w then [SetCodePage] else [], Inl (NotADirectoryError font_dir)))"
proof (intro conjI impI)
  assume "fs w font_dir = None"
  then have "get_otf_files w font_dir = Inl (FileNotFoundError font_dir)"
    by (simp add: get_otf_files_def listdir_def)
  from main_no_directory [OF this]
  show "main w p t0 t1 =
        (if IS_WINDOWS w then [SetCodePage] else [], Inl (FileNotFoundError font_dir))" .
next
  assume "fs w font_dir = Some RegularFile"
  then have "get_otf_files w font_dir = Inl (NotADirectoryError font_dir)"
    by (simp add: get_otf_files_def listdir_def)
  from main_no_directory [OF this]
  show "main w p t0 t1 =
        (if IS_WINDOWS w then [SetCodePage] else [], Inl (NotADirectoryError font_dir))" .
qed

theorem main_directory_missing_witness:
  "main no_directory_world sample_pool 0 5 = ([SetCodePage], Inl (FileNotFoundError font_dir))
   \<and> main file_as_directory_world sample_pool 0 5 =
       ([SetCodePage], Inl (NotADirectoryError font_dir))"
proof -
  have a: "fs no_directory_world font_dir = None" "IS_WINDOWS no_directory_world"
    by (simp_all add: no_directory_world_def sample_world_def)
  have b: "fs file_as_directory_world font_dir = Some RegularFile"
    "IS_WINDOWS file_as_directory_world"
    by (simp_all add: file_as_directory_world_def sample_world_def)
  from main_directory_missing [of no_directory_world sample_pool 0 5]
    main_directory_missing [of file_as_directory_world sample_pool 0 5] a b
  show ?thesis by simp
qed

text \<open>
  Claim C9. Every call of \<^verbatim>\<open>convert_otf_to_ttf\<close> returns a result whose \<^verbatim>\<open>time\<close>
  field is the clock reading of the \<^verbatim>\<open>finally\<close> block minus the reading taken on
  entry: on the early return for a missing file, after a launch that raised, and after
  either exit status.
\<close>

theorem convert_time_on_every_path:
  "\<exists>r. convert_otf_to_ttf w start_time end_time file_path = Inr r
        \<and> time r = end_time - start_time"
  by (cases w file_path rule: convert_cases)
     (simp_all add: convert_missing convert_raised convert_exit_zero convert_exit_nonzero)

theorem convert_time_on_every_path_witness:
  "(\<exists>r. convert_otf_to_ttf sample_world 1 3 [120] = Inr r
         \<and> error r = file_missing_msg \<and> time r = 2)
   \<and> (\<exists>r. convert_otf_to_ttf sample_world 1 3 (in_font_dir name_c) = Inr r
         \<and> error r = bad_glyph_table \<and> time r = 2)
   \<and> (\<exists>r. convert_otf_to_ttf no_converter_world 1 3 (in_font_dir name_a) = Inr r
         \<and> error r = system_error_prefix @ map of_char ''otf2ttf'' \<and> time r = 2)
   \<and> (\<exists>r. convert_otf_to_ttf sample_world 1 3 (in_font_dir name_a) = Inr r
         \<and> success r \<and> time r = 2)"
proof -
  have missing: "\<not> path_exists sample_world [120]"
    by (simp add: path_exists_def sample_defs)
  have ex: "path_exists no_converter_world (in_font_dir name_a)"
    by (simp add: path_exists_def no_converter_world_def sample_defs)
  have run: "otf2ttf no_converter_world (in_font_dir name_a) =
               Inl (FileNotFoundError (map of_char ''otf2ttf''))"
    by (simp add: no_converter_world_def)
  from convert_time_on_every_path [of sample_world 1 3 "[120]"]
    convert_time_on_every_path [of sample_world 1 3 "in_font_dir name_c"]
    convert_time_on_every_path [of no_converter_world 1 3 "in_font_dir name_a"]
    convert_time_on_every_path [of sample_world 1 3 "in_font_dir name_a"]
  show ?thesis
    by (simp add: convert_missing [OF missing] convert_raised [OF ex run] sample_convert)
qed

text \<open>
  Claim C10. \<^verbatim>\<open>print_progress_bar\<close> raises \<^verbatim>\<open>ZeroDivisionError\<close> when its total is
  zero, whatever the iteration. In a run of \<^verbatim>\<open>main\<close> that does not happen: every call
  of \<^verbatim>\<open>print_progress_bar\<close> has for its total the number of files found, which is at
  least 1, and an iteration between 1 and the total; such a call writes a percentage in
  \<open>(0, 100]\<close> and a bar of the full width with between 0 and 50 filled cells; and
  \<^verbatim>\<open>main\<close> never ends with a \<^verbatim>\<open>ZeroDivisionError\<close>.
\<close>

theorem progress_bar_total_never_zero:
  "(\<exists>m. print_progress_bar i 0 = Inl (ZeroDivisionError m))
   \<and> (ProgressBar j t \<in> set (fst (main w p t0 t1)) \<longrightarrow>
        (\<exists>files. get_otf_files w font_dir = Inr files \<and> t = int (length files))
        \<and> 1 \<le> t \<and> 1 \<le> j \<and> j \<le> t
        \<and> (\<exists>out. print_progress_bar j t = Inr out \<and> 0 < percent out \<and> percent out \<le> 100
               \<and> 0 \<le> filled_length out \<and> filled_length out \<le> bar_length
               \<and> int (length (bar out)) = bar_length))
   \<and> snd (main w p t0 t1) \<noteq> Inl (ZeroDivisionError m')"
proof (intro conjI impI)
  show "\<exists>m. print_progress_bar i 0 = Inl (ZeroDivisionError m)"
    by (simp add: print_progress_bar_def)
next
  assume "ProgressBar j t \<in> set (fst (main w p t0 t1))"
  from main_events [OF this] obtain files where
    files: "get_otf_files w font_dir = Inr files" and t: "t = int (length files)"
    and j: "0 < j" "j \<le> int (length files)"
    by auto
  from j t have bounds: "1 \<le> j" "j \<le> t" by simp_all
  from files t show "\<exists>files. get_otf_files w font_dir = Inr files \<and> t = int (length files)"
    by blast
  from bounds show "1 \<le> t" by simp
  from bounds show "1 \<le> j" by simp
  from bounds show "j \<le> t" by simp
  from progress_bar_defined [OF bounds]
  show "\<exists>out. print_progress_bar j t = Inr out \<and> 0 < percent out \<and> percent out \<le> 100
               \<and> 0 \<le> filled_length out \<and> filled_length out \<le> bar_length
               \<and> int (length (bar out)) = bar_length" .
next
  from main_outcome [of w p t0 t1]
  show "snd (main w p t0 t1) \<noteq> Inl (ZeroDivisionError m')" by auto
qed

theorem progress_bar_total_never_zero_witness:
  "ProgressBar 2 3 \<in> set (fst (main sample_world sample_pool 0 5))
   \<and> (\<exists>out. print_progress_bar 2 3 = Inr out \<and> 0 < percent out \<and> percent out \<le> 100
               \<and> 0 \<le> filled_length out \<and> filled_length out \<le> bar_length
               \<and> int (length (bar out)) = bar_length)
   \<and> (\<exists>m. print_progress_bar 2 0 = Inl (ZeroDivisionError m))"
proof -
  have mem: "ProgressBar 2 3 \<in> set (fst (main sample_world sample_pool 0 5))"
    by (simp add: sample_main)
  from progress_bar_total_never_zero [of 2 2 3 sample_world sample_pool 0 5] mem
  show ?thesis by blast
qed

end
